theory Spec2Isabelle
  imports Complex_Main "HOL-Library.AList"
begin

section \<open>Values of the controller\<close>

text \<open>
  The controller of \<^verbatim>\<open>app_version_7_intensity.py\<close> keeps its device states in a Python
  dict and updates it from the dict that the output parser returns for a command. Both hold
  JSON values. A Python \<^verbatim>\<open>str\<close> is modelled as a \<^typ>\<open>string\<close> whose characters are the
  code points below 256; a dict is an association list in insertion order, and a dict that
  Python can build has distinct keys. A float is a rational number, an infinity or NaN.
  CPython's configurable limit on the number of digits that \<^verbatim>\<open>int\<close> and \<^verbatim>\<open>str\<close>
  convert is not part of the model.
\<close>

datatype pyfloat = Finite rat | PosInf | NegInf | NaN

datatype json =
    JNull
  | JBool bool
  | JInt int
  | JFloat pyfloat
  | JStr string
  | JList "json list"
  | JDict "(string \<times> json) list"

type_synonym pydict = "(string \<times> json) list"

datatype error = AttributeError | KeyError | TypeError | ValueError | OverflowError

fun is_dict :: "json \<Rightarrow> bool" where
  "is_dict (JDict d) = True"
| "is_dict v = False"

text \<open>\<^verbatim>\<open>d.get(k, default)\<close> for a dict \<open>d\<close>.\<close>

definition dict_get :: "pydict \<Rightarrow> string \<Rightarrow> json \<Rightarrow> json" where
  "dict_get d k dflt = (case map_of d k of None \<Rightarrow> dflt | Some v \<Rightarrow> v)"

text \<open>\<^verbatim>\<open>v.items()\<close>: only a dict has the attribute.\<close>

fun py_items :: "json \<Rightarrow> error + pydict" where
  "py_items (JDict d) = Inr d"
| "py_items v = Inl AttributeError"

subsection \<open>Strings and integers\<close>

text \<open>
  \<^verbatim>\<open>s.rstrip(chars)\<close> removes every trailing character that occurs in \<open>chars\<close>;
  \<^verbatim>\<open>s.strip()\<close> removes the characters for which \<^verbatim>\<open>str.isspace\<close> holds from both ends.
\<close>

definition py_rstrip :: "string \<Rightarrow> string \<Rightarrow> string" where
  "py_rstrip chars s = rev (dropWhile (\<lambda>c. c \<in> set chars) (rev s))"



text \<open>
  \<^verbatim>\<open>int(s)\<close> for a string: white space around the literal is dropped (the file and
  group separators 28 to 31 are white space for \<^verbatim>\<open>strip\<close>, not for \<^verbatim>\<open>int\<close>), then an
  optional sign, then decimal digits, where one underscore may stand between two digits.
\<close>

definition is_int_space :: "char \<Rightarrow> bool" where
  "is_int_space c = ((of_char c :: nat) \<in> {9, 10, 11, 12, 13, 32, 133, 160})"

definition is_digit :: "char \<Rightarrow> bool" where
  "is_digit c = (48 \<le> (of_char c :: nat) \<and> (of_char c :: nat) \<le> 57)"

definition digit_val :: "char \<Rightarrow> nat" where
  "digit_val c = of_char c - 48"

fun parse_digits :: "nat \<Rightarrow> string \<Rightarrow> nat option" where
  "parse_digits acc [] = Some acc"
| "parse_digits acc (c # cs) =
     (if is_digit c then parse_digits (acc * 10 + digit_val c) cs
      else if c = CHR ''_'' then
        (case cs of
           [] \<Rightarrow> None
         | d # ds \<Rightarrow> if is_digit d then parse_digits (acc * 10 + digit_val d) ds else None)
      else None)"

definition parse_nat :: "string \<Rightarrow> nat option" where
  "parse_nat s =
     (case s of
        [] \<Rightarrow> None
      | c # cs \<Rightarrow> if is_digit c then parse_digits (digit_val c) cs else None)"

definition py_int_str :: "string \<Rightarrow> error + int" where
  "py_int_str s =
     (let t = dropWhile is_int_space (rev (dropWhile is_int_space (rev s)));
          neg = (t \<noteq> [] \<and> hd t = CHR ''-'');
          body = (if t \<noteq> [] \<and> (hd t = CHR ''-'' \<or> hd t = CHR ''+'') then tl t else t)
      in case parse_nat body of
           None \<Rightarrow> Inl ValueError
         | Some n \<Rightarrow> Inr (if neg then - int n else int n))"

text \<open>\<^verbatim>\<open>int(v)\<close> for a JSON value: a float is truncated towards zero.\<close>

fun py_int :: "json \<Rightarrow> error + int" where
  "py_int (JInt n) = Inr n"
| "py_int (JBool b) = Inr (if b then 1 else 0)"
| "py_int (JFloat (Finite r)) = Inr (if 0 \<le> r then \<lfloor>r\<rfloor> else \<lceil>r\<rceil>)"
| "py_int (JFloat PosInf) = Inl OverflowError"
| "py_int (JFloat NegInf) = Inl OverflowError"
| "py_int (JFloat NaN) = Inl ValueError"
| "py_int (JStr s) = py_int_str s"
| "py_int JNull = Inl TypeError"
| "py_int (JList xs) = Inl TypeError"
| "py_int (JDict d) = Inl TypeError"

text \<open>\<^verbatim>\<open>str(n)\<close> for an integer.\<close>

fun str_nat :: "nat \<Rightarrow> string" where
  "str_nat n =
     (if n < 10 then [char_of (48 + n)]
      else str_nat (n div 10) @ [char_of (48 + n mod 10)])"

definition str_int :: "int \<Rightarrow> string" where
  "str_int i = (if i < 0 then CHR ''-'' # str_nat (nat (- i)) else str_nat (nat i))"

text \<open>
  \<^verbatim>\<open>str(v)\<close> where the model writes it out: strings, integers, booleans and
  \<^verbatim>\<open>None\<close>. The text of a float, a list or a dict is not modelled (\<open>None\<close>); it never
  reads as an integer, since it holds a point, an exponent, letters or brackets.
\<close>

fun py_str :: "json \<Rightarrow> string option" where
  "py_str (JStr s) = Some s"
| "py_str (JInt n) = Some (str_int n)"
| "py_str (JBool b) = Some (if b then ''True'' else ''False'')"
| "py_str JNull = Some ''None''"
| "py_str (JFloat f) = None"
| "py_str (JList xs) = None"
| "py_str (JDict d) = None"

section \<open>The device states\<close>

text \<open>The dict built by \<^verbatim>\<open>SmartHomeController.__init__\<close>, in its insertion order.\<close>

definition initial_states :: pydict where
  "initial_states =
     [(''room 1 light'', JStr ''off''),
      (''room 2 light'', JDict [(''state'', JStr ''off''), (''intensity'', JInt 0)]),
      (''room 3 light'', JDict [(''state'', JStr ''off''), (''intensity'', JInt 0)]),
      (''room 4 light'', JStr ''off''),
      (''kitchen light'', JStr ''off''),
      (''TV'', JStr ''off''),
      (''Refrigerator'', JStr ''off''),
      (''DC motor'', JStr ''off''),
      (''Servo motor'', JDict [(''direction'', JStr ''none''), (''degrees'', JInt 0)])]"

text \<open>The literal list \<^verbatim>\<open>["room 2 light", "room 3 light"]\<close> of the source.\<close>

definition dimmable :: "string list" where
  "dimmable = [''room 2 light'', ''room 3 light'']"

text \<open>
  \<^verbatim>\<open>self.device_states[device][field]\<close>, read and assigned. A missing key raises
  \<^verbatim>\<open>KeyError\<close>, a value that is no dict raises \<^verbatim>\<open>TypeError\<close> for a string subscript.
  An exception carries the device states as they are when it is raised. An assignment to a
  key that a dict has keeps the key's position.
\<close>

definition get_field :: "pydict \<Rightarrow> string \<Rightarrow> string \<Rightarrow> error + json" where
  "get_field ds device field =
     (case map_of ds device of
        None \<Rightarrow> Inl KeyError
      | Some cur \<Rightarrow>
          (case cur of
             JDict d \<Rightarrow> (case map_of d field of None \<Rightarrow> Inl KeyError | Some v \<Rightarrow> Inr v)
           | _ \<Rightarrow> Inl TypeError))"

definition set_field :: "pydict \<Rightarrow> string \<Rightarrow> string \<Rightarrow> json \<Rightarrow> error \<times> pydict + pydict" where
  "set_field ds device field v =
     (case map_of ds device of
        None \<Rightarrow> Inl (KeyError, ds)
      | Some cur \<Rightarrow>
          (case cur of
             JDict d \<Rightarrow> Inr (AList.update device (JDict (AList.update field v d)) ds)
           | _ \<Rightarrow> Inl (TypeError, ds)))"

text \<open>Statements in sequence: an exception ends the sequence.\<close>

definition seq ::
  "error \<times> pydict + pydict \<Rightarrow> (pydict \<Rightarrow> error \<times> pydict + pydict) \<Rightarrow> error \<times> pydict + pydict" where
  "seq r f = (case r of Inl e \<Rightarrow> Inl e | Inr ds \<Rightarrow> f ds)"

text \<open>\<^verbatim>\<open>try: ... except (ValueError, TypeError): logging.error(...)\<close>.\<close>

definition catch_value_type :: "error \<times> pydict + pydict \<Rightarrow> error \<times> pydict + pydict" where
  "catch_value_type r =
     (case r of
        Inl (e, ds) \<Rightarrow> if e = ValueError \<or> e = TypeError then Inr ds else Inl (e, ds)
      | Inr ds \<Rightarrow> Inr ds)"

text \<open>A \<^verbatim>\<open>for k, v in d.items()\<close> loop whose body updates the device states.\<close>

fun for_items ::
  "(pydict \<Rightarrow> string \<times> json \<Rightarrow> error \<times> pydict + pydict) \<Rightarrow> pydict \<Rightarrow> pydict
     \<Rightarrow> error \<times> pydict + pydict" where
  "for_items body ds [] = Inr ds"
| "for_items body ds (kv # kvs) =
     (case body ds kv of Inl e \<Rightarrow> Inl e | Inr ds' \<Rightarrow> for_items body ds' kvs)"

section \<open>The merge: \<^verbatim>\<open>parse_command\<close>\<close>

text \<open>
  \<^verbatim>\<open>self.device_states[device][field] = state.get(field, self.device_states[device][field])\<close>:
  the default is evaluated first, whether the update has the field or not.
\<close>

definition assign_default :: "pydict \<Rightarrow> string \<Rightarrow> string \<Rightarrow> pydict \<Rightarrow> error \<times> pydict + pydict" where
  "assign_default ds device field state =
     (case get_field ds device field of
        Inl e \<Rightarrow> Inl (e, ds)
      | Inr cur \<Rightarrow> set_field ds device field (dict_get state field cur))"

text \<open>The body of the loop over \<^verbatim>\<open>device_states.items()\<close> (lines 123 to 142).\<close>

fun update_device :: "pydict \<Rightarrow> string \<times> json \<Rightarrow> error \<times> pydict + pydict" where
  "update_device ds (device, state) =
     (case map_of ds device of
        None \<Rightarrow> Inr ds
      | Some cur \<Rightarrow>
          if device \<in> set dimmable then
            (if is_dict cur then
               (case state of
                  JDict s \<Rightarrow>
                    seq (assign_default ds device ''state'' s)
                      (\<lambda>ds1. assign_default ds1 device ''intensity'' s)
                | _ \<Rightarrow> set_field ds device ''state'' state)
             else Inr ds)
          else if device = ''Servo motor'' then
            (case state of
               JDict s \<Rightarrow>
                 seq (assign_default ds device ''direction'' s)
                   (\<lambda>ds1. assign_default ds1 device ''degrees'' s)
             | _ \<Rightarrow> Inr ds)
          else Inr (AList.update device state ds))"

text \<open>The body of the loop over \<^verbatim>\<open>light_intensity.items()\<close> (lines 145 to 158).\<close>

definition strip_percent :: "json \<Rightarrow> json" where
  "strip_percent intensity =
     (case intensity of JStr s \<Rightarrow> JStr (py_rstrip ''%'' s) | _ \<Rightarrow> intensity)"

fun update_intensity :: "pydict \<Rightarrow> string \<times> json \<Rightarrow> error \<times> pydict + pydict" where
  "update_intensity ds (light, intensity) =
     (if light \<in> set dimmable then
        (let intensity' = strip_percent intensity
         in catch_value_type
              (case py_int intensity' of
                 Inl e \<Rightarrow> Inl (e, ds)
               | Inr n \<Rightarrow>
                   seq (set_field ds light ''intensity'' (JInt n))
                     (\<lambda>ds1. set_field ds1 light ''state''
                               (JStr (if n > 0 then ''on'' else ''off'')))))
      else Inr ds)"

text \<open>
  The servo updates (lines 161 to 168). The argument of \<^verbatim>\<open>rstrip\<close> in the source is the
  two characters U+00C2 and U+00B0.
\<close>

definition degree_chars :: string where
  "degree_chars = [CHR 0xC2, CHR 0xB0]"

definition angle_int :: "json \<Rightarrow> error + int" where
  "angle_int v =
     (case py_str v of
        None \<Rightarrow> Inl ValueError
      | Some s \<Rightarrow> py_int_str (py_rstrip degree_chars s))"

definition update_servo_angle :: "pydict \<Rightarrow> json \<Rightarrow> error \<times> pydict + pydict" where
  "update_servo_angle ds servo_motor_angle =
     (if servo_motor_angle \<noteq> JNull then
        catch_value_type
          (case angle_int servo_motor_angle of
             Inl e \<Rightarrow> Inl (e, ds)
           | Inr n \<Rightarrow> set_field ds ''Servo motor'' ''degrees'' (JInt n))
      else Inr ds)"

definition update_servo_direction :: "pydict \<Rightarrow> json \<Rightarrow> error \<times> pydict + pydict" where
  "update_servo_direction ds servo_motor_direction =
     (if servo_motor_direction \<noteq> JNull then
        set_field ds ''Servo motor'' ''direction'' servo_motor_direction
      else Inr ds)"

text \<open>
  The updates of one command: lines 122 to 168 on the four values that lines 117 to 120
  take from the dict \<open>parsed_output\<close> that the output parser returned.
\<close>

definition update_states ::
  "pydict \<Rightarrow> json \<Rightarrow> json \<Rightarrow> json \<Rightarrow> json \<Rightarrow> error \<times> pydict + pydict" where
  "update_states ds device_states light_intensity servo_motor_angle servo_motor_direction =
     (case py_items device_states of
        Inl e \<Rightarrow> Inl (e, ds)
      | Inr updates \<Rightarrow>
          seq (for_items update_device ds updates)
            (\<lambda>ds1. case py_items light_intensity of
                      Inl e \<Rightarrow> Inl (e, ds1)
                    | Inr intensities \<Rightarrow>
                        seq (for_items update_intensity ds1 intensities)
                          (\<lambda>ds2. seq (update_servo_angle ds2 servo_motor_angle)
                                   (\<lambda>ds3. update_servo_direction ds3 servo_motor_direction))))"

definition apply_updates :: "pydict \<Rightarrow> pydict \<Rightarrow> error \<times> pydict + pydict" where
  "apply_updates ds parsed_output =
     update_states ds
       (dict_get parsed_output ''device_states'' (JDict []))
       (dict_get parsed_output ''light_intensity'' (JDict []))
       (dict_get parsed_output ''servo_motor_angle'' JNull)
       (dict_get parsed_output ''servo_motor_direction'' JNull)"

text \<open>
  The dict that \<^verbatim>\<open>parse_command\<close> returns; its entry \<^verbatim>\<open>device_states\<close> is the
  controller's own dict, which the model returns beside it.
\<close>

record command_result =
  chatbot_message :: json
  delay_seconds :: int

text \<open>
  \<^verbatim>\<open>parse_command\<close> from line 116 on. Every exception of the body is caught by
  \<^verbatim>\<open>except Exception\<close>, logged, and turned into the result \<^verbatim>\<open>None\<close>; the device
  states keep the updates made before it.
\<close>

definition parse_command :: "pydict \<Rightarrow> pydict \<Rightarrow> pydict \<times> command_result option" where
  "parse_command ds parsed_output =
     (case apply_updates ds parsed_output of
        Inl (e, ds') \<Rightarrow> (ds', None)
      | Inr ds' \<Rightarrow>
          (case py_int (dict_get parsed_output ''delay_seconds'' (JInt 0)) of
             Inl e \<Rightarrow> (ds', None)
           | Inr n \<Rightarrow>
               (ds', Some \<lparr>chatbot_message =
                              dict_get parsed_output ''chatbot_message'' (JStr ''Command processed''),
                            delay_seconds = n\<rparr>)))"

text \<open>The device states after a sequence of commands.\<close>

fun run_commands :: "pydict \<Rightarrow> pydict list \<Rightarrow> pydict" where
  "run_commands ds [] = ds"
| "run_commands ds (doc # docs) = run_commands (fst (parse_command ds doc)) docs"

text \<open>The device states that a run of the body leaves, with or without an exception.\<close>

definition final :: "error \<times> pydict + pydict \<Rightarrow> pydict" where
  "final r = (case r of Inl (e, ds) \<Rightarrow> ds | Inr ds \<Rightarrow> ds)"

section \<open>The endpoints\<close>

text \<open>
  \<^verbatim>\<open>receive_voice_command\<close> for a command that is not empty: a result \<^verbatim>\<open>None\<close> of
  \<^verbatim>\<open>parse_command\<close> is answered with the status \<^verbatim>\<open>error\<close>; otherwise the states are
  sent at once or after the delay, and the answer has the status \<^verbatim>\<open>success\<close>.
\<close>

datatype dispatch = Immediate | Deferred int

datatype response = Success json dispatch | Failure string

definition receive_voice_command :: "pydict \<Rightarrow> pydict \<Rightarrow> pydict \<times> response" where
  "receive_voice_command ds parsed_output =
     (case parse_command ds parsed_output of
        (ds', None) \<Rightarrow> (ds', Failure ''No command received'')
      | (ds', Some parsed_result) \<Rightarrow>
          (ds', Success (chatbot_message parsed_result)
                  (if delay_seconds parsed_result > 0
                   then Deferred (delay_seconds parsed_result) else Immediate)))"

text \<open>
  \<^verbatim>\<open>receive_direct_command\<close> for a request body that is a JSON object: an empty one is
  refused, any other replaces the device states as a whole.
\<close>

definition receive_direct_command :: "pydict \<Rightarrow> pydict \<Rightarrow> pydict \<times> response" where
  "receive_direct_command ds new_states =
     (if new_states = [] then (ds, Failure ''No state data received'')
      else (new_states, Success (JStr ''Device states updated'') Immediate))"

section \<open>The frames: \<^verbatim>\<open>send_device_states\<close>\<close>


definition needs_quote :: "char \<Rightarrow> bool" where
  "needs_quote c = (c = CHR '','' \<or> c = CHR 0x22 \<or> c = CHR 0x0D \<or> c = CHR 0x0A)"

definition csv_field :: "string \<Rightarrow> string" where
  "csv_field s =
     (if list_ex needs_quote s
      then [CHR 0x22] @ concat (map (\<lambda>c. if c = CHR 0x22 then [c, c] else [c]) s) @ [CHR 0x22]
      else s)"








section \<open>Invariants\<close>

text \<open>
  The invariants of the specification, read on the dict: an intensity light is on exactly
  when its intensity is positive; the servo has its degrees between 0 and 180 and one of
  the three directions.
\<close>

definition dimmable_inv :: "pydict \<Rightarrow> string \<Rightarrow> bool" where
  "dimmable_inv ds light =
     (case get_field ds light ''intensity'' of
        Inr (JInt n) \<Rightarrow> (0 < n) = (get_field ds light ''state'' = Inr (JStr ''on''))
      | _ \<Rightarrow> False)"

definition actuator_inv :: "pydict \<Rightarrow> bool" where
  "actuator_inv ds =
     ((case get_field ds ''Servo motor'' ''degrees'' of
         Inr (JInt n) \<Rightarrow> 0 \<le> n \<and> n \<le> 180
       | _ \<Rightarrow> False)
      \<and> get_field ds ''Servo motor'' ''direction''
          \<in> {Inr (JStr ''clock''), Inr (JStr ''anti''), Inr (JStr ''none'')})"

definition store_inv :: "pydict \<Rightarrow> bool" where
  "store_inv ds = (list_all (dimmable_inv ds) dimmable \<and> actuator_inv ds)"

text \<open>
  The shape that the merge relies on and keeps: the keys of \<^const>\<open>initial_states\<close>, the
  intensity lights dicts with a state and an intensity, the servo a dict with a direction
  and degrees.
\<close>

definition has_field :: "pydict \<Rightarrow> string \<Rightarrow> string \<Rightarrow> bool" where
  "has_field ds device field = (case get_field ds device field of Inl e \<Rightarrow> False | Inr v \<Rightarrow> True)"

definition shape_ok :: "pydict \<Rightarrow> bool" where
  "shape_ok ds =
     (map fst ds = map fst initial_states
      \<and> list_all (\<lambda>light. has_field ds light ''state'' \<and> has_field ds light ''intensity'') dimmable
      \<and> has_field ds ''Servo motor'' ''direction''
      \<and> has_field ds ''Servo motor'' ''degrees'')"

text \<open>The devices whose state is a dict: the intensity lights and the servo.\<close>

definition record_device :: "string \<Rightarrow> bool" where
  "record_device dev = (dev \<in> set dimmable \<or> dev = ''Servo motor'')"

text \<open>
  A document without some entries of one of its maps: the entries \<open>P\<close> of the dict under
  \<open>key\<close> are removed; a value under \<open>key\<close> that is no dict stays.
\<close>

definition drop_entries :: "(string \<times> json \<Rightarrow> bool) \<Rightarrow> string \<Rightarrow> pydict \<Rightarrow> pydict" where
  "drop_entries P key doc =
     AList.update key
       (case dict_get doc key (JDict []) of
          JDict d \<Rightarrow> JDict (filter (\<lambda>kv. \<not> P kv) d)
        | v \<Rightarrow> v)
       doc"

text \<open>An intensity that \<^verbatim>\<open>int\<close> refuses with one of the two exceptions the loop catches.\<close>

definition malformed_intensity :: "string \<times> json \<Rightarrow> bool" where
  "malformed_intensity kv =
     (py_int (strip_percent (snd kv)) = Inl ValueError
      \<or> py_int (strip_percent (snd kv)) = Inl TypeError)"


section \<open>Facts about the model\<close>

subsection \<open>Results and exceptions\<close>

declare str_nat.simps [simp del]

lemma final_simps [simp]: "final (Inl (e, ds)) = ds" "final (Inr ds) = ds"
  by (simp_all add: final_def)

lemma final_catch: "final (catch_value_type r) = final r"
  by (cases r) (auto simp: catch_value_type_def)

lemma fst_parse_command: "fst (parse_command ds doc) = final (apply_updates ds doc)"
  by (auto simp: parse_command_def split: sum.splits)

lemma parse_command_Some:
  assumes "parse_command ds doc = (ds', Some r)"
  shows "apply_updates ds doc = Inr ds'"
  using assms by (auto simp: parse_command_def split: sum.splits)

lemma parse_command_cong:
  assumes "apply_updates ds doc' = apply_updates ds doc"
    and "dict_get doc' ''delay_seconds'' (JInt 0) = dict_get doc ''delay_seconds'' (JInt 0)"
    and "dict_get doc' ''chatbot_message'' (JStr ''Command processed'')
         = dict_get doc ''chatbot_message'' (JStr ''Command processed'')"
  shows "parse_command ds doc' = parse_command ds doc"
  using assms by (simp add: parse_command_def cong: sum.case_cong)

lemma py_int_errors:
  "py_int v = Inl e \<Longrightarrow> e = ValueError \<or> e = TypeError \<or> e = OverflowError"
proof (cases v)
  case (JFloat f)
  then show "py_int v = Inl e \<Longrightarrow> ?thesis" by (cases f) auto
next
  case (JStr s)
  then show "py_int v = Inl e \<Longrightarrow> ?thesis"
    by (auto simp: py_int_str_def Let_def split: option.splits)
qed auto

lemma update_states_Inr:
  assumes "update_states ds us ls a d = Inr ds'"
  shows "\<exists>updates intensities ds1 ds2 ds3.
      py_items us = Inr updates \<and> for_items update_device ds updates = Inr ds1
    \<and> py_items ls = Inr intensities \<and> for_items update_intensity ds1 intensities = Inr ds2
    \<and> update_servo_angle ds2 a = Inr ds3 \<and> update_servo_direction ds3 d = Inr ds'"
  using assms by (auto simp: update_states_def seq_def split: sum.splits)

subsection \<open>Invariants of the loops\<close>

lemma for_items_invariant:
  assumes step: "\<And>ds kv. kv \<in> set kvs \<Longrightarrow> I ds \<Longrightarrow> I (final (body ds kv))"
  shows "I ds \<Longrightarrow> I (final (for_items body ds kvs))"
  using step
proof (induction kvs arbitrary: ds)
  case Nil
  then show ?case by simp
next
  case (Cons kv kvs)
  from Cons.prems have now: "I (final (body ds kv))" by simp
  show ?case
  proof (cases "body ds kv")
    case (Inl e)
    with now show ?thesis by (cases e) simp
  next
    case (Inr ds1)
    with now have "I ds1" by simp
    then have "I (final (for_items body ds1 kvs))"
      by (rule Cons.IH) (simp add: Cons.prems(2))
    with Inr show ?thesis by simp
  qed
qed

lemma seq_invariant:
  assumes "I (final r)" and "\<And>ds. I ds \<Longrightarrow> I (final (f ds))"
  shows "I (final (seq r f))"
  using assms by (cases r) (auto simp: seq_def)

lemma for_items_filter:
  assumes skip: "\<And>ds kv. I ds \<Longrightarrow> P kv \<Longrightarrow> body ds kv = Inr ds"
    and inv: "\<And>ds kv ds'. I ds \<Longrightarrow> body ds kv = Inr ds' \<Longrightarrow> I ds'"
  shows "I ds \<Longrightarrow> for_items body ds (filter (\<lambda>kv. \<not> P kv) kvs) = for_items body ds kvs"
proof (induction kvs arbitrary: ds)
  case Nil
  show ?case by simp
next
  case (Cons kv kvs)
  show ?case
  proof (cases "P kv")
    case True
    with skip [OF Cons.prems] Cons.IH [OF Cons.prems] show ?thesis by simp
  next
    case False
    show ?thesis
    proof (cases "body ds kv")
      case (Inl e)
      with False show ?thesis by simp
    next
      case (Inr ds')
      from inv [OF Cons.prems Inr] have "I ds'" .
      from Cons.IH [OF this] False Inr show ?thesis by simp
    qed
  qed
qed

subsection \<open>The keys of the device states\<close>

lemma keys_update_present:
  "map_of ds k = Some v \<Longrightarrow> map fst (AList.update k w ds) = map fst ds"
  by (simp add: update_keys map_of_eq_None_iff [symmetric] del: map_of_eq_None_iff)

lemma keys_set_field: "map fst (final (set_field ds device field v)) = map fst ds"
  by (auto simp: set_field_def keys_update_present split: option.splits json.splits)

lemma keys_assign_default: "map fst (final (assign_default ds device field s)) = map fst ds"
  by (simp add: assign_default_def keys_set_field split: sum.splits)

lemma keys_seq:
  assumes "map fst (final r) = K"
    and "\<And>ds. map fst ds = K \<Longrightarrow> map fst (final (f ds)) = K"
  shows "map fst (final (seq r f)) = K"
  using assms by (cases r) (auto simp: seq_def)

lemma keys_for_items:
  assumes "\<And>ds kv. map fst (final (body ds kv)) = map fst ds"
  shows "map fst (final (for_items body ds kvs)) = map fst ds"
proof (induction kvs arbitrary: ds)
  case Nil
  show ?case by simp
next
  case (Cons kv kvs)
  show ?case
  proof (cases "body ds kv")
    case (Inl e)
    with assms [of ds kv] show ?thesis by (cases e) simp
  next
    case (Inr ds')
    with assms [of ds kv] Cons.IH [of ds'] show ?thesis by simp
  qed
qed

lemma keys_update_device: "map fst (final (update_device ds kv)) = map fst ds"
proof (cases kv)
  case (Pair device state)
  show ?thesis
    unfolding Pair
    by (auto simp: keys_set_field keys_assign_default keys_update_present
        intro!: keys_seq split: option.splits json.splits)
qed

lemma keys_update_intensity: "map fst (final (update_intensity ds kv)) = map fst ds"
proof (cases kv)
  case (Pair light intensity)
  show ?thesis
    unfolding Pair
    by (auto simp: final_catch keys_set_field Let_def intro!: keys_seq split: sum.splits)
qed

lemma keys_update_servo_angle: "map fst (final (update_servo_angle ds a)) = map fst ds"
  by (auto simp: update_servo_angle_def final_catch keys_set_field split: sum.splits)

lemma keys_update_servo_direction: "map fst (final (update_servo_direction ds d)) = map fst ds"
  by (simp add: update_servo_direction_def keys_set_field)

lemma keys_update_states: "map fst (final (update_states ds us ls a d)) = map fst ds"
  unfolding update_states_def
  by (auto split: sum.splits intro!: keys_seq
      simp: keys_for_items keys_update_device keys_update_intensity
        keys_update_servo_angle keys_update_servo_direction)

lemma keys_apply_updates: "map fst (final (apply_updates ds doc)) = map fst ds"
  by (simp add: apply_updates_def keys_update_states)

lemma keys_parse_command: "map fst (fst (parse_command ds doc)) = map fst ds"
  by (simp add: fst_parse_command keys_apply_updates)

lemma keys_run_commands: "map fst (run_commands ds docs) = map fst ds"
  by (induction docs arbitrary: ds) (simp_all add: keys_parse_command)

text \<open>
  The other writer of the device states is no merge: \<^verbatim>\<open>receive_direct_command\<close> puts
  the posted object in their place, with whatever keys it has.
\<close>

lemma receive_direct_command_replaces:
  "new_states \<noteq> [] \<Longrightarrow> fst (receive_direct_command ds new_states) = new_states"
  by (simp add: receive_direct_command_def)

subsection \<open>Entries that a loop skips\<close>

lemma dict_get_update:
  "dict_get (AList.update k v d) k' dflt = (if k' = k then v else dict_get d k' dflt)"
  by (simp add: dict_get_def update_conv')

lemma dict_get_drop_entries_other:
  "k' \<noteq> key \<Longrightarrow> dict_get (drop_entries P key doc) k' dflt = dict_get doc k' dflt"
  by (simp add: drop_entries_def dict_get_update)

lemma drop_entries_get:
  "dict_get (drop_entries P key doc) key (JDict [])
     = (case dict_get doc key (JDict []) of
          JDict d \<Rightarrow> JDict (filter (\<lambda>kv. \<not> P kv) d) | v \<Rightarrow> v)"
  by (simp add: drop_entries_def dict_get_update)

lemma update_states_drop_device_states:
  assumes skip: "\<And>ds' kv. map fst ds' = map fst ds \<Longrightarrow> P kv \<Longrightarrow> update_device ds' kv = Inr ds'"
  shows "update_states ds (case us of JDict d \<Rightarrow> JDict (filter (\<lambda>kv. \<not> P kv) d) | v \<Rightarrow> v) ls a dir
         = update_states ds us ls a dir"
proof -
  have loop: "for_items update_device ds (filter (\<lambda>kv. \<not> P kv) kvs) = for_items update_device ds kvs"
    for kvs
  proof (rule for_items_filter [where I = "\<lambda>ds'. map fst ds' = map fst ds"])
    show "update_device ds' kv = Inr ds'" if "map fst ds' = map fst ds" "P kv" for ds' kv
      using that by (rule skip)
    show "map fst ds'' = map fst ds"
      if "map fst ds' = map fst ds" "update_device ds' kv = Inr ds''" for ds' kv ds''
      using keys_update_device [of ds' kv] that by simp
    show "map fst ds = map fst ds" by simp
  qed
  show ?thesis
    by (cases us) (simp_all add: update_states_def loop)
qed

lemma update_states_drop_light_intensity:
  assumes skip: "\<And>ds' kv. P kv \<Longrightarrow> update_intensity ds' kv = Inr ds'"
  shows "update_states ds us (case ls of JDict d \<Rightarrow> JDict (filter (\<lambda>kv. \<not> P kv) d) | v \<Rightarrow> v) a dir
         = update_states ds us ls a dir"
proof -
  have loop: "for_items update_intensity ds' (filter (\<lambda>kv. \<not> P kv) kvs)
      = for_items update_intensity ds' kvs" for kvs ds'
    by (rule for_items_filter [where I = "\<lambda>_. True"]) (simp_all add: skip)
  show ?thesis
    by (cases ls) (simp_all add: update_states_def loop cong: sum.case_cong)
qed

lemma apply_updates_drop_device_states:
  assumes "\<And>ds' kv. map fst ds' = map fst ds \<Longrightarrow> P kv \<Longrightarrow> update_device ds' kv = Inr ds'"
  shows "apply_updates ds (drop_entries P ''device_states'' doc) = apply_updates ds doc"
  by (simp add: apply_updates_def drop_entries_get dict_get_drop_entries_other
      update_states_drop_device_states [OF assms])

lemma apply_updates_drop_light_intensity:
  assumes "\<And>ds' kv. P kv \<Longrightarrow> update_intensity ds' kv = Inr ds'"
  shows "apply_updates ds (drop_entries P ''light_intensity'' doc) = apply_updates ds doc"
  by (simp add: apply_updates_def drop_entries_get dict_get_drop_entries_other
      update_states_drop_light_intensity [OF assms])

lemma parse_command_drop_device_states:
  assumes "\<And>ds' kv. map fst ds' = map fst ds \<Longrightarrow> P kv \<Longrightarrow> update_device ds' kv = Inr ds'"
  shows "parse_command ds (drop_entries P ''device_states'' doc) = parse_command ds doc"
  by (rule parse_command_cong)
    (simp_all add: apply_updates_drop_device_states [OF assms] dict_get_drop_entries_other)

lemma parse_command_drop_light_intensity:
  assumes "\<And>ds' kv. P kv \<Longrightarrow> update_intensity ds' kv = Inr ds'"
  shows "parse_command ds (drop_entries P ''light_intensity'' doc) = parse_command ds doc"
  by (rule parse_command_cong)
    (simp_all add: apply_updates_drop_light_intensity [OF assms] dict_get_drop_entries_other)



lemma update_intensity_malformed:
  "malformed_intensity kv \<Longrightarrow> update_intensity ds kv = Inr ds"
  by (cases kv) (auto simp: malformed_intensity_def catch_value_type_def)

subsection \<open>Assignments to a field\<close>

lemma set_field_dict:
  "map_of ds device = Some (JDict d) \<Longrightarrow>
   set_field ds device field v = Inr (AList.update device (JDict (AList.update field v d)) ds)"
  by (simp add: set_field_def)

lemma get_field_dict:
  "map_of ds device = Some (JDict d) \<Longrightarrow>
   get_field ds device field = (case map_of d field of None \<Rightarrow> Inl KeyError | Some v \<Rightarrow> Inr v)"
  by (simp add: get_field_def)

lemma get_field_update:
  "get_field (AList.update device (JDict d) ds) device field
     = (case map_of d field of None \<Rightarrow> Inl KeyError | Some v \<Rightarrow> Inr v)"
  by (simp add: get_field_def update_conv')

lemma get_field_update_other:
  "device' \<noteq> device \<Longrightarrow> get_field (AList.update device v ds) device' field = get_field ds device' field"
  by (simp add: get_field_def update_conv')

lemma update_intensity_ok:
  assumes "light \<in> set dimmable" and "map_of ds light = Some (JDict d)"
    and "py_int (strip_percent intensity) = Inr n"
  shows "update_intensity ds (light, intensity)
    = Inr (AList.update light
        (JDict (AList.update ''state'' (JStr (if 0 < n then ''on'' else ''off''))
                 (AList.update ''intensity'' (JInt n) d))) ds)"
  using assms
  by (simp add: set_field_dict seq_def catch_value_type_def update_conv')

lemma update_servo_angle_ok:
  assumes "map_of ds ''Servo motor'' = Some (JDict d)" and "angle \<noteq> JNull"
    and "angle_int angle = Inr n"
  shows "update_servo_angle ds angle
    = Inr (AList.update ''Servo motor'' (JDict (AList.update ''degrees'' (JInt n) d)) ds)"
  using assms by (simp add: update_servo_angle_def set_field_dict catch_value_type_def)

lemma update_servo_direction_ok:
  assumes "map_of ds ''Servo motor'' = Some (JDict d)" and "direction \<noteq> JNull"
  shows "update_servo_direction ds direction
    = Inr (AList.update ''Servo motor'' (JDict (AList.update ''direction'' direction d)) ds)"
  using assms by (simp add: update_servo_direction_def set_field_dict)

lemma assign_default_dict:
  assumes "map_of ds device = Some (JDict d)" and "map_of d field = Some cur"
  shows "assign_default ds device field s
    = Inr (AList.update device (JDict (AList.update field (dict_get s field cur) d)) ds)"
  using assms by (simp add: assign_default_def get_field_dict set_field_dict)

lemma update_device_servo_dict:
  assumes "map_of ds ''Servo motor'' = Some (JDict d)"
    and "map_of d ''direction'' = Some old" and "map_of d ''degrees'' = Some deg"
  shows "update_device ds (''Servo motor'', JDict s)
    = Inr (AList.update ''Servo motor''
        (JDict (AList.update ''degrees'' (dict_get s ''degrees'' deg)
                 (AList.update ''direction'' (dict_get s ''direction'' old) d))) ds)"
proof -
  let ?d1 = "AList.update ''direction'' (dict_get s ''direction'' old) d"
  let ?ds1 = "AList.update ''Servo motor'' (JDict ?d1) ds"
  have first: "assign_default ds ''Servo motor'' ''direction'' s = Inr ?ds1"
    using assms(1,2) by (rule assign_default_dict)
  have "map_of ?ds1 ''Servo motor'' = Some (JDict ?d1)" by (simp add: update_conv')
  moreover have "map_of ?d1 ''degrees'' = Some deg" using assms(3) by (simp add: update_conv')
  ultimately have second: "assign_default ?ds1 ''Servo motor'' ''degrees'' s
      = Inr (AList.update ''Servo motor''
          (JDict (AList.update ''degrees'' (dict_get s ''degrees'' deg) ?d1)) ?ds1)"
    by (rule assign_default_dict)
  show ?thesis
    using assms(1) by (simp add: dimmable_def seq_def first second)
qed

subsection \<open>The shape of the device states\<close>

lemma has_field_set_field:
  assumes "has_field ds dev fld"
  shows "has_field (final (set_field ds device f v)) dev fld"
proof (cases "set_field ds device f v")
  case (Inl e)
  with assms show ?thesis
    by (auto simp: set_field_def split: option.splits json.splits)
next
  case (Inr ds1)
  then obtain d where d: "map_of ds device = Some (JDict d)"
    and ds1: "ds1 = AList.update device (JDict (AList.update f v d)) ds"
    by (auto simp: set_field_def split: option.splits json.splits)
  show ?thesis
  proof (cases "dev = device")
    case True
    with assms d have "map_of d fld \<noteq> None"
      by (auto simp: has_field_def get_field_def split: option.splits)
    with True Inr ds1 show ?thesis
      by (auto simp: has_field_def get_field_update update_conv' split: option.splits)
  next
    case False
    with assms Inr ds1 show ?thesis
      by (simp add: has_field_def get_field_update_other)
  qed
qed

lemma has_field_assign_default:
  "has_field ds dev fld \<Longrightarrow> has_field (final (assign_default ds device f s)) dev fld"
  by (auto simp: assign_default_def has_field_set_field split: sum.splits)

lemma has_field_update_device:
  assumes "record_device dev" and "has_field ds dev fld"
  shows "has_field (final (update_device ds kv)) dev fld"
proof (cases kv)
  case (Pair device state)
  have two: "has_field (final (seq (assign_default ds device f1 s)
      (\<lambda>ds1. assign_default ds1 device f2 s))) dev fld" for f1 f2 s
    by (rule seq_invariant [where I = "\<lambda>ds. has_field ds dev fld"])
      (simp_all add: has_field_assign_default assms(2))
  show ?thesis
  proof (cases "device \<in> set dimmable \<or> device = ''Servo motor''")
    case True
    with assms(2) two show ?thesis
      unfolding Pair
      by (auto simp: has_field_set_field split: option.splits json.splits)
  next
    case False
    with assms(1) have "dev \<noteq> device" by (auto simp: record_device_def)
    with False assms(2) show ?thesis
      unfolding Pair
      by (auto simp: has_field_def get_field_update_other split: option.splits)
  qed
qed

lemma has_field_update_intensity:
  assumes "has_field ds dev fld"
  shows "has_field (final (update_intensity ds kv)) dev fld"
proof (cases kv)
  case (Pair light intensity)
  have "has_field (final (seq (set_field ds light f1 v1)
      (\<lambda>ds1. set_field ds1 light f2 v2))) dev fld" for f1 f2 v1 v2
    by (rule seq_invariant [where I = "\<lambda>ds. has_field ds dev fld"])
      (simp_all add: has_field_set_field assms)
  with assms show ?thesis
    unfolding Pair by (auto simp: final_catch Let_def split: sum.splits)
qed

lemma has_field_update_servo_angle:
  "has_field ds dev fld \<Longrightarrow> has_field (final (update_servo_angle ds a)) dev fld"
  by (auto simp: update_servo_angle_def final_catch has_field_set_field split: sum.splits)

lemma has_field_update_servo_direction:
  "has_field ds dev fld \<Longrightarrow> has_field (final (update_servo_direction ds d)) dev fld"
  by (simp add: update_servo_direction_def has_field_set_field)

lemma has_field_update_states:
  assumes "record_device dev" and "has_field ds dev fld"
  shows "has_field (final (update_states ds us ls a d)) dev fld"
proof -
  let ?I = "\<lambda>ds. has_field ds dev fld"
  have loop1: "?I (final (for_items update_device ds kvs))" for kvs
    by (rule for_items_invariant [where I = ?I])
      (simp_all add: has_field_update_device assms)
  have loop2: "?I (final (for_items update_intensity ds1 kvs))" if "?I ds1" for ds1 kvs
    by (rule for_items_invariant [where I = ?I])
      (simp_all add: has_field_update_intensity that)
  have servo: "?I (final (seq (update_servo_angle ds2 a)
      (\<lambda>ds3. update_servo_direction ds3 d)))" if "?I ds2" for ds2
    by (rule seq_invariant [where I = ?I])
      (simp_all add: has_field_update_servo_angle has_field_update_servo_direction that)
  have rest: "?I (final (case py_items ls of
        Inl e \<Rightarrow> Inl (e, ds1)
      | Inr intensities \<Rightarrow>
          seq (for_items update_intensity ds1 intensities)
            (\<lambda>ds2. seq (update_servo_angle ds2 a)
                     (\<lambda>ds3. update_servo_direction ds3 d))))" if "?I ds1" for ds1
  proof (cases "py_items ls")
    case (Inl e)
    with that show ?thesis by simp
  next
    case (Inr intensities)
    have "?I (final (seq (for_items update_intensity ds1 intensities)
            (\<lambda>ds2. seq (update_servo_angle ds2 a)
                     (\<lambda>ds3. update_servo_direction ds3 d))))"
      by (rule seq_invariant [where I = ?I]) (simp_all add: loop2 servo that)
    with Inr show ?thesis by simp
  qed
  show ?thesis
  proof (cases "py_items us")
    case (Inl e)
    with assms(2) show ?thesis by (simp add: update_states_def)
  next
    case (Inr updates)
    have "?I (final (seq (for_items update_device ds updates)
            (\<lambda>ds1. case py_items ls of
                      Inl e \<Rightarrow> Inl (e, ds1)
                    | Inr intensities \<Rightarrow>
                        seq (for_items update_intensity ds1 intensities)
                          (\<lambda>ds2. seq (update_servo_angle ds2 a)
                                   (\<lambda>ds3. update_servo_direction ds3 d)))))"
      by (rule seq_invariant [where I = ?I]) (simp_all add: loop1 rest)
    with Inr show ?thesis by (simp add: update_states_def)
  qed
qed

lemma shape_ok_parse_command:
  assumes "shape_ok ds"
  shows "shape_ok (fst (parse_command ds doc))"
proof -
  have keep: "has_field (fst (parse_command ds doc)) dev fld"
    if "record_device dev" "has_field ds dev fld" for dev fld
    using that by (simp add: fst_parse_command apply_updates_def has_field_update_states)
  from assms show ?thesis
    by (simp add: shape_ok_def keys_parse_command dimmable_def keep record_device_def)
qed

lemma shape_ok_initial: "shape_ok initial_states"
  by code_simp

lemma shape_ok_run_commands: "shape_ok ds \<Longrightarrow> shape_ok (run_commands ds docs)"
  by (induction docs arbitrary: ds) (simp_all add: shape_ok_parse_command)

subsection \<open>What the intensity loop leaves for a light\<close>

lemma get_field_set_field_other:
  "device \<noteq> dev \<Longrightarrow> get_field (final (set_field ds device f v)) dev fld = get_field ds dev fld"
  by (auto simp: set_field_def get_field_update_other split: option.splits json.splits)

lemma get_field_update_intensity_other:
  assumes "fst kv \<noteq> dev"
  shows "get_field (final (update_intensity ds kv)) dev fld = get_field ds dev fld"
proof (cases kv)
  case (Pair light intensity)
  with assms have neq: "light \<noteq> dev" by simp
  have "get_field (final (seq (set_field ds light f1 v1)
      (\<lambda>ds1. set_field ds1 light f2 v2))) dev fld = get_field ds dev fld" for f1 f2 v1 v2
    by (rule seq_invariant [where I = "\<lambda>ds'. get_field ds' dev fld = get_field ds dev fld"])
      (simp_all add: get_field_set_field_other neq)
  then show ?thesis
    unfolding Pair by (auto simp: final_catch Let_def split: sum.splits)
qed

lemma get_field_servo_updates_other:
  assumes "dev \<noteq> ''Servo motor''"
  shows "get_field (final (update_servo_angle ds a)) dev fld = get_field ds dev fld"
    and "get_field (final (update_servo_direction ds d)) dev fld = get_field ds dev fld"
  using assms
  by (auto simp: update_servo_angle_def update_servo_direction_def final_catch
      get_field_set_field_other split: sum.splits)

lemma for_items_intensity_other:
  assumes "dev \<notin> fst ` set kvs"
  shows "get_field (final (for_items update_intensity ds kvs)) dev fld = get_field ds dev fld"
proof (rule for_items_invariant [where I = "\<lambda>ds'. get_field ds' dev fld = get_field ds dev fld"])
  fix ds' :: pydict and kv :: "string \<times> json"
  assume "kv \<in> set kvs" and "get_field ds' dev fld = get_field ds dev fld"
  from \<open>kv \<in> set kvs\<close> assms have "fst kv \<noteq> dev" by auto
  from get_field_update_intensity_other [OF this, of ds' fld]
    \<open>get_field ds' dev fld = get_field ds dev fld\<close>
  show "get_field (final (update_intensity ds' kv)) dev fld = get_field ds dev fld"
    by simp
qed simp

lemma has_field_dict:
  "has_field ds dev fld \<Longrightarrow> \<exists>d. map_of ds dev = Some (JDict d)"
  by (auto simp: has_field_def get_field_def split: option.splits json.splits)

lemma update_intensity_sets:
  assumes "light \<in> set dimmable" and "has_field ds light ''intensity''"
    and "py_int (strip_percent intensity) = Inr n"
  shows "\<exists>ds1. update_intensity ds (light, intensity) = Inr ds1
    \<and> get_field ds1 light ''intensity'' = Inr (JInt n)
    \<and> get_field ds1 light ''state'' = Inr (JStr (if 0 < n then ''on'' else ''off''))"
proof -
  from assms(2) obtain d where "map_of ds light = Some (JDict d)"
    using has_field_dict by blast
  from update_intensity_ok [OF assms(1) this assms(3)] show ?thesis
    by (simp add: get_field_update update_conv' del: update_intensity.simps)
qed

lemma for_items_intensity_sets:
  assumes "light \<in> set dimmable" and "py_int (strip_percent intensity) = Inr n"
  shows "distinct (map fst kvs) \<Longrightarrow> (light, intensity) \<in> set kvs
    \<Longrightarrow> has_field ds light ''intensity''
    \<Longrightarrow> for_items update_intensity ds kvs = Inr ds'
    \<Longrightarrow> get_field ds' light ''intensity'' = Inr (JInt n)
      \<and> get_field ds' light ''state'' = Inr (JStr (if 0 < n then ''on'' else ''off''))"
proof (induction kvs arbitrary: ds)
  case Nil
  then show ?case by simp
next
  case (Cons kv kvs)
  show ?case
  proof (cases "kv = (light, intensity)")
    case True
    from update_intensity_sets [OF assms(1) Cons.prems(3) assms(2)]
    obtain ds1 where step: "update_intensity ds (light, intensity) = Inr ds1"
      and set1: "get_field ds1 light ''intensity'' = Inr (JInt n)"
        "get_field ds1 light ''state'' = Inr (JStr (if 0 < n then ''on'' else ''off''))"
      by blast
    from Cons.prems(1) True have "light \<notin> fst ` set kvs" by simp
    from for_items_intensity_other [OF this, of ds1]
    have "get_field (final (for_items update_intensity ds1 kvs)) light fld
        = get_field ds1 light fld" for fld .
    moreover from Cons.prems(4) True step
    have "for_items update_intensity ds1 kvs = Inr ds'"
      by (simp del: update_intensity.simps)
    ultimately show ?thesis using set1 by simp
  next
    case False
    with Cons.prems(2) have mem: "(light, intensity) \<in> set kvs" by simp
    from Cons.prems(4) obtain ds1 where step: "update_intensity ds kv = Inr ds1"
      and rest: "for_items update_intensity ds1 kvs = Inr ds'"
      by (auto split: sum.splits simp del: update_intensity.simps)
    from has_field_update_intensity [OF Cons.prems(3), of kv] step
    have "has_field ds1 light ''intensity''" by simp
    with Cons.IH [of ds1] Cons.prems(1) mem rest show ?thesis by simp
  qed
qed

lemma intensity_rederived:
  assumes shape: "shape_ok ds"
    and result: "parse_command ds doc = (ds', Some r)"
    and ls: "dict_get doc ''light_intensity'' (JDict []) = JDict intensities"
    and dist: "distinct (map fst intensities)"
    and light: "light \<in> set dimmable"
    and entry: "map_of intensities light = Some intensity"
    and int: "py_int (strip_percent intensity) = Inr n"
  shows "get_field ds' light ''intensity'' = Inr (JInt n)
    \<and> get_field ds' light ''state'' = Inr (JStr (if 0 < n then ''on'' else ''off''))"
proof -
  from parse_command_Some [OF result] ls
  have "update_states ds (dict_get doc ''device_states'' (JDict [])) (JDict intensities)
      (dict_get doc ''servo_motor_angle'' JNull) (dict_get doc ''servo_motor_direction'' JNull)
      = Inr ds'"
    by (simp add: apply_updates_def)
  from update_states_Inr [OF this]
  obtain updates ds1 ds2 ds3 where
    loop1: "for_items update_device ds updates = Inr ds1"
    and loop2: "for_items update_intensity ds1 intensities = Inr ds2"
    and angle: "update_servo_angle ds2 (dict_get doc ''servo_motor_angle'' JNull) = Inr ds3"
    and dir: "update_servo_direction ds3 (dict_get doc ''servo_motor_direction'' JNull) = Inr ds'"
    by auto
  from light have rec: "record_device light" by (simp add: record_device_def)
  from light have neq: "light \<noteq> ''Servo motor''" by (auto simp: dimmable_def)
  from shape light have "has_field ds light ''intensity''"
    by (auto simp: shape_ok_def list_all_iff)
  then have "has_field (final (for_items update_device ds updates)) light ''intensity''"
    by (rule for_items_invariant [where I = "\<lambda>ds. has_field ds light ''intensity''", rotated])
      (simp add: has_field_update_device rec)
  with loop1 have field: "has_field ds1 light ''intensity''" by simp
  from entry have mem: "(light, intensity) \<in> set intensities" by (rule map_of_SomeD)
  from for_items_intensity_sets [OF light int dist mem field loop2]
  have "get_field ds2 light ''intensity'' = Inr (JInt n)
      \<and> get_field ds2 light ''state'' = Inr (JStr (if 0 < n then ''on'' else ''off''))" .
  moreover have "get_field ds3 light fld = get_field ds2 light fld" for fld
    using get_field_servo_updates_other(1)
      [OF neq, where ds = ds2 and a = "dict_get doc ''servo_motor_angle'' JNull" and fld = fld]
      angle
    by simp
  moreover have "get_field ds' light fld = get_field ds3 light fld" for fld
    using get_field_servo_updates_other(2)
      [OF neq, where ds = ds3 and d = "dict_get doc ''servo_motor_direction'' JNull"
         and fld = fld]
      dir
    by simp
  ultimately show ?thesis by simp
qed

subsection \<open>Texts that the frame keeps\<close>


lemma csv_field_Nil [simp]: "csv_field [] = []"
  by (simp add: csv_field_def)





lemma of_char_digit: "n < 10 \<Longrightarrow> (of_char (char_of (48 + n :: nat)) :: nat) = 48 + n"
  by simp

lemma str_nat_digits: "str_nat n \<noteq> [] \<and> list_all is_digit (str_nat n)"
proof (induction n rule: str_nat.induct)
  case (1 n)
  show ?case
  proof (cases "n < 10")
    case True
    then show ?thesis by (subst (1 2) str_nat.simps) (simp add: is_digit_def of_char_digit)
  next
    case False
    have "n mod 10 < 10" by simp
    then have "is_digit (char_of (48 + n mod 10))"
      unfolding is_digit_def by (simp only: of_char_digit) simp
    with False 1 show ?thesis by (subst (1 2) str_nat.simps) simp
  qed
qed













subsection \<open>Reading back a printed integer\<close>

lemma parse_digits_snoc:
  "list_all is_digit ds \<Longrightarrow> is_digit c \<Longrightarrow>
   parse_digits acc (ds @ [c]) = map_option (\<lambda>m. m * 10 + digit_val c) (parse_digits acc ds)"
  by (induction ds arbitrary: acc) simp_all

lemma parse_nat_snoc:
  assumes "s \<noteq> []" and "list_all is_digit s" and "is_digit c"
  shows "parse_nat (s @ [c]) = map_option (\<lambda>m. m * 10 + digit_val c) (parse_nat s)"
  using assms by (cases s) (simp_all add: parse_nat_def parse_digits_snoc)

lemma digit_val_digit: "n < 10 \<Longrightarrow> digit_val (char_of (48 + n :: nat)) = n"
  by (simp add: digit_val_def of_char_digit)

lemma is_digit_digit: "n < 10 \<Longrightarrow> is_digit (char_of (48 + n :: nat))"
  by (simp add: is_digit_def of_char_digit)

lemma parse_nat_str_nat: "parse_nat (str_nat n) = Some n"
proof (induction n rule: str_nat.induct)
  case (1 n)
  show ?case
  proof (cases "n < 10")
    case True
    then show ?thesis
      by (subst str_nat.simps) (simp add: parse_nat_def is_digit_digit digit_val_digit)
  next
    case False
    have last: "is_digit (char_of (48 + n mod 10))"
      "digit_val (char_of (48 + n mod 10)) = n mod 10"
      by (simp_all add: is_digit_digit digit_val_digit)
    from str_nat_digits [of "n div 10"] last(1)
    have "parse_nat (str_nat (n div 10) @ [char_of (48 + n mod 10)])
        = map_option (\<lambda>m. m * 10 + digit_val (char_of (48 + n mod 10)))
            (parse_nat (str_nat (n div 10)))"
      by (intro parse_nat_snoc) simp_all
    with False 1 last(2) show ?thesis
      by (subst str_nat.simps) simp
  qed
qed

lemma dropWhile_rev_last: "s \<noteq> [] \<Longrightarrow> \<not> P (last s) \<Longrightarrow> dropWhile P (rev s) = rev s"
  by (cases s rule: rev_cases) simp_all

lemma dropWhile_hd: "s \<noteq> [] \<Longrightarrow> \<not> P (hd s) \<Longrightarrow> dropWhile P s = s"
  by (cases s) simp_all

lemma digit_no_sign: "is_digit c \<Longrightarrow> c \<noteq> CHR ''-'' \<and> c \<noteq> CHR ''+'' \<and> \<not> is_int_space c"
  by (auto simp: is_digit_def is_int_space_def)

lemma str_int_ends:
  "str_int i \<noteq> [] \<and> is_digit (last (str_int i))
   \<and> (if i < 0 then hd (str_int i) = CHR ''-'' else is_digit (hd (str_int i)))"
proof -
  have "str_nat n \<noteq> [] \<and> is_digit (last (str_nat n)) \<and> is_digit (hd (str_nat n))" for n
    using str_nat_digits [of n] by (cases "str_nat n") (auto simp: list_all_iff)
  then show ?thesis by (simp add: str_int_def)
qed

lemma py_int_str_str_int: "py_int_str (str_int i) = Inr i"
proof -
  note e = str_int_ends [of i]
  have minus: "\<not> is_int_space (CHR ''-'')" by (simp add: is_int_space_def)
  from e have rear: "dropWhile is_int_space (rev (str_int i)) = rev (str_int i)"
    by (intro dropWhile_rev_last) (simp_all add: digit_no_sign)
  from e minus have front: "dropWhile is_int_space (str_int i) = str_int i"
    by (intro dropWhile_hd) (auto simp: digit_no_sign split: if_splits)
  show ?thesis
  proof (cases "i < 0")
    case True
    with parse_nat_str_nat [of "nat (- i)"] show ?thesis
      unfolding py_int_str_def rear rev_rev_ident front
      by (simp add: str_int_def)
  next
    case False
    with e digit_no_sign [of "hd (str_int i)"] have "hd (str_int i) \<noteq> CHR ''-''"
      "hd (str_int i) \<noteq> CHR ''+''" by simp_all
    with False e parse_nat_str_nat [of "nat i"] show ?thesis
      unfolding py_int_str_def rear rev_rev_ident front
      by (simp add: str_int_def)
  qed
qed

lemma degree_chars_no_digit: "is_digit c \<Longrightarrow> c \<notin> set degree_chars"
  by (auto simp: is_digit_def degree_chars_def)

lemma py_rstrip_str_int: "py_rstrip degree_chars (str_int i) = str_int i"
  using str_int_ends [of i]
  by (simp add: py_rstrip_def dropWhile_rev_last degree_chars_no_digit)

lemma angle_int_JInt: "angle_int (JInt i) = Inr i"
  by (simp add: angle_int_def py_rstrip_str_int py_int_str_str_int)

section \<open>The claims\<close>

text \<open>
  C1, as the code has it. For every sequence of documents, after each merge the device
  states keep their shape: the keys of the constructor, every intensity light a dict with
  a state and an intensity, the servo a dict with a direction and degrees. A merge that
  returns a result leaves an intensity light on exactly when its intensity is positive if
  the \<^verbatim>\<open>light_intensity\<close> map of the document gives that light a value that \<^verbatim>\<open>int\<close>
  accepts: the light then has that integer as its intensity and the state derived from it.
\<close>

theorem merge_keeps_shape_and_rederives_state:
  "shape_ok (run_commands initial_states docs)
   \<and> (shape_ok ds \<longrightarrow> shape_ok (fst (parse_command ds parsed_output)))
   \<and> (shape_ok ds \<and> parse_command ds parsed_output = (ds', Some result)
        \<and> dict_get parsed_output ''light_intensity'' (JDict []) = JDict intensities
        \<and> distinct (map fst intensities) \<and> light \<in> set dimmable
        \<and> map_of intensities light = Some intensity
        \<and> py_int (strip_percent intensity) = Inr n \<longrightarrow>
      get_field ds' light ''intensity'' = Inr (JInt n)
      \<and> get_field ds' light ''state'' = Inr (JStr (if 0 < n then ''on'' else ''off''))
      \<and> dimmable_inv ds' light)"
proof (intro conjI impI)
  show "shape_ok (run_commands initial_states docs)"
    by (rule shape_ok_run_commands) (rule shape_ok_initial)
  show "shape_ok (fst (parse_command ds parsed_output))" if "shape_ok ds"
    using that by (rule shape_ok_parse_command)
  assume a: "shape_ok ds \<and> parse_command ds parsed_output = (ds', Some result)
        \<and> dict_get parsed_output ''light_intensity'' (JDict []) = JDict intensities
        \<and> distinct (map fst intensities) \<and> light \<in> set dimmable
        \<and> map_of intensities light = Some intensity
        \<and> py_int (strip_percent intensity) = Inr n"
  then have set: "get_field ds' light ''intensity'' = Inr (JInt n)
      \<and> get_field ds' light ''state'' = Inr (JStr (if 0 < n then ''on'' else ''off''))"
    using intensity_rederived [of ds parsed_output ds' result intensities light intensity n]
    by blast
  then show "get_field ds' light ''intensity'' = Inr (JInt n)"
    and "get_field ds' light ''state'' = Inr (JStr (if 0 < n then ''on'' else ''off''))"
    by simp_all
  from set show "dimmable_inv ds' light"
    by (simp add: dimmable_inv_def)
qed

text \<open>
  The scenario of the specification: \<^verbatim>\<open>{"light_intensity": {"room 2 light": "75%"}}\<close>
  leaves room 2 light on with the intensity 75.
\<close>

theorem merge_keeps_shape_and_rederives_state_witness:
  "shape_ok (run_commands initial_states
      [[(''device_states'', JDict [(''room 2 light'', JStr ''on'')])],
       [(''servo_motor_angle'', JInt 200)]])
   \<and> shape_ok initial_states
   \<and> shape_ok (fst (parse_command initial_states
        [(''light_intensity'', JDict [(''room 2 light'', JStr ''75%'')])]))
   \<and> parse_command initial_states [(''light_intensity'', JDict [(''room 2 light'', JStr ''75%'')])]
       = (AList.update ''room 2 light''
            (JDict [(''state'', JStr ''on''), (''intensity'', JInt 75)]) initial_states,
          Some \<lparr>chatbot_message = JStr ''Command processed'', delay_seconds = 0\<rparr>)
   \<and> dict_get [(''light_intensity'', JDict [(''room 2 light'', JStr ''75%'')])]
        ''light_intensity'' (JDict []) = JDict [(''room 2 light'', JStr ''75%'')]
   \<and> distinct (map fst [(''room 2 light'', JStr ''75%'')])
   \<and> ''room 2 light'' \<in> set dimmable
   \<and> map_of [(''room 2 light'', JStr ''75%'')] ''room 2 light'' = Some (JStr ''75%'')
   \<and> py_int (strip_percent (JStr ''75%'')) = Inr 75
   \<and> get_field (AList.update ''room 2 light''
          (JDict [(''state'', JStr ''on''), (''intensity'', JInt 75)]) initial_states)
        ''room 2 light'' ''intensity'' = Inr (JInt 75)
   \<and> get_field (AList.update ''room 2 light''
          (JDict [(''state'', JStr ''on''), (''intensity'', JInt 75)]) initial_states)
        ''room 2 light'' ''state'' = Inr (JStr ''on'')
   \<and> dimmable_inv (AList.update ''room 2 light''
          (JDict [(''state'', JStr ''on''), (''intensity'', JInt 75)]) initial_states)
        ''room 2 light''"
proof -
  let ?doc = "[(''light_intensity'', JDict [(''room 2 light'', JStr ''75%'')])]"
  let ?ds' = "AList.update ''room 2 light''
      (JDict [(''state'', JStr ''on''), (''intensity'', JInt 75)]) initial_states"
  let ?r = "\<lparr>chatbot_message = JStr ''Command processed'', delay_seconds = 0\<rparr>"
  have h1: "shape_ok initial_states" by code_simp
  have h2: "parse_command initial_states ?doc = (?ds', Some ?r)" by code_simp
  have h3: "dict_get ?doc ''light_intensity'' (JDict []) = JDict [(''room 2 light'', JStr ''75%'')]"
    by (simp add: dict_get_def)
  have h4: "distinct (map fst [(''room 2 light'', JStr ''75%'')])" by simp
  have h5: "''room 2 light'' \<in> set dimmable" by (simp add: dimmable_def)
  have h6: "map_of [(''room 2 light'', JStr ''75%'')] ''room 2 light'' = Some (JStr ''75%'')"
    by simp
  have h7: "py_int (strip_percent (JStr ''75%'')) = Inr 75" by code_simp
  note t = merge_keeps_shape_and_rederives_state
    [of "[[(''device_states'', JDict [(''room 2 light'', JStr ''on'')])],
          [(''servo_motor_angle'', JInt 200)]]"
        initial_states ?doc ?ds' ?r "[(''room 2 light'', JStr ''75%'')]" "''room 2 light''"
        "JStr ''75%''" 75]
  from t h1 h2 h3 h4 h5 h6 h7 show ?thesis by auto
qed

text \<open>
  Against C1 as stated: the initial states satisfy the invariants, and one merge breaks
  them. The update \<^verbatim>\<open>{"room 2 light": "on"}\<close> turns the light on at intensity 0; the angle
  200 is stored as the degrees; the direction \<^verbatim>\<open>sideways\<close> is stored.
\<close>

theorem invariants_broken_counterexample:
  "store_inv initial_states
   \<and> \<not> store_inv (run_commands initial_states
         [[(''device_states'', JDict [(''room 2 light'', JStr ''on'')])]])
   \<and> \<not> store_inv (run_commands initial_states [[(''servo_motor_angle'', JInt 200)]])
   \<and> \<not> store_inv (run_commands initial_states
         [[(''servo_motor_direction'', JStr ''sideways'')]])"
  by code_simp

text \<open>
  C2, as the code has it. An intensity of the \<^verbatim>\<open>light_intensity\<close> map that \<^verbatim>\<open>int\<close>
  accepts (after a trailing percent sign is stripped from a string) is stored for an
  intensity light as the integer it is, without clamping, and the state becomes \<^verbatim>\<open>on\<close>
  exactly when that integer is positive. An angle that \<^verbatim>\<open>int\<close> accepts (after the
  trailing degree characters are stripped from its text) is stored as the servo's degrees
  as it is, without clamping. Every integer is accepted as itself, in both places.
\<close>

theorem intensity_and_degrees_stored_unclamped:
  "(light \<in> set dimmable \<and> map_of ds light = Some (JDict d)
      \<and> py_int (strip_percent intensity) = Inr n \<longrightarrow>
    update_intensity ds (light, intensity)
      = Inr (AList.update light
          (JDict (AList.update ''state'' (JStr (if 0 < n then ''on'' else ''off''))
                   (AList.update ''intensity'' (JInt n) d))) ds)
    \<and> get_field (final (update_intensity ds (light, intensity))) light ''intensity''
        = Inr (JInt n)
    \<and> get_field (final (update_intensity ds (light, intensity))) light ''state''
        = Inr (JStr (if 0 < n then ''on'' else ''off'')))
   \<and> (map_of ds ''Servo motor'' = Some (JDict d') \<and> servo_motor_angle \<noteq> JNull
      \<and> angle_int servo_motor_angle = Inr m \<longrightarrow>
    update_servo_angle ds servo_motor_angle
      = Inr (AList.update ''Servo motor'' (JDict (AList.update ''degrees'' (JInt m) d')) ds)
    \<and> get_field (final (update_servo_angle ds servo_motor_angle)) ''Servo motor'' ''degrees''
        = Inr (JInt m))
   \<and> py_int (strip_percent (JInt k)) = Inr k
   \<and> angle_int (JInt k) = Inr k"
  by (simp add: update_intensity_ok update_servo_angle_ok get_field_update update_conv'
      angle_int_JInt strip_percent_def del: update_intensity.simps)

text \<open>The intensity 150 is stored as 150 with the light on, the angle \<^verbatim>\<open>200\<close> with a degree sign as 200.\<close>

theorem intensity_and_degrees_stored_unclamped_witness:
  "''room 2 light'' \<in> set dimmable
   \<and> map_of initial_states ''room 2 light''
       = Some (JDict [(''state'', JStr ''off''), (''intensity'', JInt 0)])
   \<and> py_int (strip_percent (JInt 150)) = Inr 150
   \<and> get_field (final (update_intensity initial_states (''room 2 light'', JInt 150)))
        ''room 2 light'' ''intensity'' = Inr (JInt 150)
   \<and> get_field (final (update_intensity initial_states (''room 2 light'', JInt 150)))
        ''room 2 light'' ''state'' = Inr (JStr ''on'')
   \<and> map_of initial_states ''Servo motor''
       = Some (JDict [(''direction'', JStr ''none''), (''degrees'', JInt 0)])
   \<and> JStr (''200'' @ [CHR 0xB0]) \<noteq> JNull
   \<and> angle_int (JStr (''200'' @ [CHR 0xB0])) = Inr 200
   \<and> get_field (final (update_servo_angle initial_states (JStr (''200'' @ [CHR 0xB0]))))
        ''Servo motor'' ''degrees'' = Inr (JInt 200)
   \<and> py_int (strip_percent (JInt 150)) = Inr 150
   \<and> angle_int (JInt 200) = Inr 200"
proof -
  have h1: "''room 2 light'' \<in> set dimmable" by (simp add: dimmable_def)
  have h2: "map_of initial_states ''room 2 light''
       = Some (JDict [(''state'', JStr ''off''), (''intensity'', JInt 0)])"
    by (simp add: initial_states_def)
  have h3: "py_int (strip_percent (JInt 150)) = Inr 150" by (simp add: strip_percent_def)
  have h4: "map_of initial_states ''Servo motor''
       = Some (JDict [(''direction'', JStr ''none''), (''degrees'', JInt 0)])"
    by (simp add: initial_states_def)
  have h5: "JStr (''200'' @ [CHR 0xB0]) \<noteq> JNull" by simp
  have h6: "angle_int (JStr (''200'' @ [CHR 0xB0])) = Inr 200" by code_simp
  from intensity_and_degrees_stored_unclamped
    [of "''room 2 light''" initial_states "[(''state'', JStr ''off''), (''intensity'', JInt 0)]"
       "JInt 150" 150 "[(''direction'', JStr ''none''), (''degrees'', JInt 0)]"
       "JStr (''200'' @ [CHR 0xB0])" 200 200]
    h1 h2 h3 h4 h5 h6
  show ?thesis by (auto simp del: update_intensity.simps)
qed

text \<open>
  Against C2 as stated: after the merge of \<^verbatim>\<open>{"light_intensity": {"room 2 light": 150}}\<close>
  the intensity is 150, not 100, and after the merge of a \<^verbatim>\<open>servo_motor_angle\<close> of
  \<^verbatim>\<open>200\<close> with a degree sign the degrees are 200, not 180.
\<close>

theorem no_clamping_counterexample:
  "get_field (fst (parse_command initial_states
       [(''light_intensity'', JDict [(''room 2 light'', JInt 150)])]))
     ''room 2 light'' ''intensity'' = Inr (JInt 150)
   \<and> get_field (fst (parse_command initial_states
       [(''servo_motor_angle'', JStr (''200'' @ [CHR 0xB0]))]))
     ''Servo motor'' ''degrees'' = Inr (JInt 200)"
  by code_simp

text \<open>
  C3, as the code has it. The merge stores a direction without validating it: a
  \<^verbatim>\<open>servo_motor_direction\<close> that is not \<^verbatim>\<open>None\<close> becomes the servo's direction whatever
  it is, and so does the \<^verbatim>\<open>direction\<close> of a dict given for \<^verbatim>\<open>Servo motor\<close> in the
  per-device map. The previous direction is kept when no direction is given: when
  \<^verbatim>\<open>servo_motor_direction\<close> is missing or \<^verbatim>\<open>None\<close>, and when the dict has no key
  \<^verbatim>\<open>direction\<close>.
\<close>

theorem direction_stored_unvalidated:
  "(map_of ds ''Servo motor'' = Some (JDict d) \<and> servo_motor_direction \<noteq> JNull \<longrightarrow>
      update_servo_direction ds servo_motor_direction
        = Inr (AList.update ''Servo motor''
            (JDict (AList.update ''direction'' servo_motor_direction d)) ds)
      \<and> get_field (final (update_servo_direction ds servo_motor_direction))
           ''Servo motor'' ''direction'' = Inr servo_motor_direction)
   \<and> update_servo_direction ds JNull = Inr ds
   \<and> (map_of ds ''Servo motor'' = Some (JDict d) \<and> map_of d ''direction'' = Some old
        \<and> map_of d ''degrees'' = Some deg \<longrightarrow>
      update_device ds (''Servo motor'', JDict s)
        = Inr (AList.update ''Servo motor''
            (JDict (AList.update ''degrees'' (dict_get s ''degrees'' deg)
                     (AList.update ''direction'' (dict_get s ''direction'' old) d))) ds)
      \<and> get_field (final (update_device ds (''Servo motor'', JDict s)))
           ''Servo motor'' ''direction'' = Inr (dict_get s ''direction'' old))"
  by (simp add: update_servo_direction_ok update_device_servo_dict get_field_update update_conv'
      del: update_device.simps)
    (simp add: update_servo_direction_def)

theorem direction_stored_unvalidated_witness:
  "map_of initial_states ''Servo motor''
       = Some (JDict [(''direction'', JStr ''none''), (''degrees'', JInt 0)])
   \<and> JStr ''sideways'' \<noteq> JNull
   \<and> map_of [(''direction'', JStr ''none''), (''degrees'', JInt 0)] ''direction''
       = Some (JStr ''none'')
   \<and> map_of [(''direction'', JStr ''none''), (''degrees'', JInt 0)] ''degrees'' = Some (JInt 0)
   \<and> get_field (final (update_servo_direction initial_states (JStr ''sideways'')))
        ''Servo motor'' ''direction'' = Inr (JStr ''sideways'')
   \<and> update_servo_direction initial_states JNull = Inr initial_states
   \<and> get_field (final (update_device initial_states
          (''Servo motor'', JDict [(''direction'', JStr ''up'')])))
        ''Servo motor'' ''direction'' = Inr (JStr ''up'')
   \<and> get_field (final (update_device initial_states
          (''Servo motor'', JDict [(''degrees'', JInt 45)])))
        ''Servo motor'' ''direction'' = Inr (JStr ''none'')"
proof -
  have h1: "map_of initial_states ''Servo motor''
       = Some (JDict [(''direction'', JStr ''none''), (''degrees'', JInt 0)])"
    by (simp add: initial_states_def)
  have h2: "JStr ''sideways'' \<noteq> JNull" by simp
  have h3: "map_of [(''direction'', JStr ''none''), (''degrees'', JInt 0)] ''direction''
       = Some (JStr ''none'')" by simp
  have h4: "map_of [(''direction'', JStr ''none''), (''degrees'', JInt 0)] ''degrees''
       = Some (JInt 0)" by simp
  have g1: "dict_get [(''direction'', JStr ''up'')] ''direction'' (JStr ''none'') = JStr ''up''"
    by (simp add: dict_get_def)
  have g2: "dict_get [(''degrees'', JInt 45)] ''direction'' (JStr ''none'') = JStr ''none''"
    by (simp add: dict_get_def)
  from direction_stored_unvalidated
    [of initial_states "[(''direction'', JStr ''none''), (''degrees'', JInt 0)]"
       "JStr ''sideways''" "JStr ''none''" "JInt 0" "[(''direction'', JStr ''up'')]"]
    direction_stored_unvalidated
    [of initial_states "[(''direction'', JStr ''none''), (''degrees'', JInt 0)]"
       "JStr ''sideways''" "JStr ''none''" "JInt 0" "[(''degrees'', JInt 45)]"]
    h1 h2 h3 h4 g1 g2
  show ?thesis by (auto simp del: update_device.simps)
qed

text \<open>
  Against C3 as stated: the directions \<^verbatim>\<open>sideways\<close> and \<^verbatim>\<open>up\<close> are none of the three
  recognised ones, and after the merge they have replaced the previous direction
  \<^verbatim>\<open>none\<close>.
\<close>

theorem direction_not_validated_counterexample:
  "get_field (fst (parse_command initial_states
       [(''servo_motor_direction'', JStr ''sideways'')]))
     ''Servo motor'' ''direction'' = Inr (JStr ''sideways'')
   \<and> get_field (fst (parse_command initial_states
       [(''device_states'', JDict [(''Servo motor'', JDict [(''direction'', JStr ''up'')])])]))
     ''Servo motor'' ''direction'' = Inr (JStr ''up'')
   \<and> get_field initial_states ''Servo motor'' ''direction'' = Inr (JStr ''none'')"
  by code_simp

text \<open>
  C4, as the code has it. For a device of the dict that is neither an intensity light
  nor the servo, the merge stores the value of the update as it is, whatever its shape: a
  bare token \<^verbatim>\<open>on\<close> or \<^verbatim>\<open>off\<close> sets the state, and so does any other value. No nested
  \<^verbatim>\<open>state\<close> field is taken out of a dict, and no value is ignored.
\<close>

theorem binary_update_stored_verbatim:
  assumes "device \<in> set (map fst ds)"
    and "device \<notin> set dimmable"
    and "device \<noteq> ''Servo motor''"
  shows "update_device ds (device, state) = Inr (AList.update device state ds)
    \<and> map_of (AList.update device state ds) device = Some state
    \<and> fst (parse_command ds [(''device_states'', JDict [(device, state)])])
        = AList.update device state ds"
proof (intro conjI)
  from assms(1) obtain cur where cur: "map_of ds device = Some cur"
    by (cases "map_of ds device") (auto simp: map_of_eq_None_iff)
  with assms(2,3) show step: "update_device ds (device, state) = Inr (AList.update device state ds)"
    by simp
  show "map_of (AList.update device state ds) device = Some state"
    by (simp add: update_conv')
  show "fst (parse_command ds [(''device_states'', JDict [(device, state)])])
        = AList.update device state ds"
    by (simp add: fst_parse_command apply_updates_def update_states_def dict_get_def step
        seq_def update_servo_angle_def update_servo_direction_def del: update_device.simps)
qed

theorem binary_update_stored_verbatim_witness:
  "''TV'' \<in> set (map fst initial_states) \<and> ''TV'' \<notin> set dimmable \<and> ''TV'' \<noteq> ''Servo motor''
   \<and> update_device initial_states (''TV'', JStr ''on'')
       = Inr (AList.update ''TV'' (JStr ''on'') initial_states)
   \<and> map_of (AList.update ''TV'' (JStr ''on'') initial_states) ''TV'' = Some (JStr ''on'')
   \<and> fst (parse_command initial_states [(''device_states'', JDict [(''TV'', JStr ''on'')])])
       = AList.update ''TV'' (JStr ''on'') initial_states"
proof -
  have h1: "''TV'' \<in> set (map fst initial_states)" by (simp add: initial_states_def)
  have h2: "''TV'' \<notin> set dimmable" by (simp add: dimmable_def)
  have h3: "''TV'' \<noteq> ''Servo motor''" by simp
  from h1 h2 h3 binary_update_stored_verbatim [OF h1 h2 h3, of "JStr ''on''"]
  show ?thesis by blast
qed

text \<open>
  Against C4 as stated: from the initial states, the update \<^verbatim>\<open>{"TV": {"state": "on"}}\<close>
  leaves the dict itself as the state of the TV, not the token \<^verbatim>\<open>on\<close>, and the update
  \<^verbatim>\<open>{"TV": 5}\<close> is not ignored.
\<close>

theorem binary_update_not_coerced_counterexample:
  "map_of (fst (parse_command initial_states
       [(''device_states'', JDict [(''TV'', JDict [(''state'', JStr ''on'')])])])) ''TV''
     = Some (JDict [(''state'', JStr ''on'')])
   \<and> map_of (fst (parse_command initial_states
       [(''device_states'', JDict [(''TV'', JInt 5)])])) ''TV''
     = Some (JInt 5)"
  by code_simp

text \<open>
  C5, as the code has it. When the updates of the command raise no exception, a missing
  \<^verbatim>\<open>delay_seconds\<close> gives the delay 0 and a value that \<^verbatim>\<open>int\<close> accepts gives that
  integer. A value that \<^verbatim>\<open>int\<close> refuses makes \<^verbatim>\<open>parse_command\<close> return \<^verbatim>\<open>None\<close>, which
  the endpoint answers with the status \<^verbatim>\<open>error\<close>; the device states keep the updates
  that the command made.
\<close>

theorem delay_seconds_parsed:
  "(map_of parsed_output ''delay_seconds'' = None \<and> apply_updates ds parsed_output = Inr ds' \<longrightarrow>
      parse_command ds parsed_output
        = (ds', Some \<lparr>chatbot_message =
                        dict_get parsed_output ''chatbot_message'' (JStr ''Command processed''),
                      delay_seconds = 0\<rparr>))
   \<and> (map_of parsed_output ''delay_seconds'' = Some v \<and> py_int v = Inr n
        \<and> apply_updates ds parsed_output = Inr ds' \<longrightarrow>
      parse_command ds parsed_output
        = (ds', Some \<lparr>chatbot_message =
                        dict_get parsed_output ''chatbot_message'' (JStr ''Command processed''),
                      delay_seconds = n\<rparr>))
   \<and> (map_of parsed_output ''delay_seconds'' = Some v \<and> py_int v = Inl e \<longrightarrow>
      parse_command ds parsed_output = (final (apply_updates ds parsed_output), None)
      \<and> receive_voice_command ds parsed_output
          = (final (apply_updates ds parsed_output), Failure ''No command received''))"
  by (auto simp: parse_command_def receive_voice_command_def dict_get_def split: sum.splits)

theorem delay_seconds_parsed_witness:
  "map_of [(''device_states'', JDict [(''TV'', JStr ''on'')])] ''delay_seconds'' = None
   \<and> apply_updates initial_states [(''device_states'', JDict [(''TV'', JStr ''on'')])]
       = Inr (AList.update ''TV'' (JStr ''on'') initial_states)
   \<and> parse_command initial_states [(''device_states'', JDict [(''TV'', JStr ''on'')])]
       = (AList.update ''TV'' (JStr ''on'') initial_states,
          Some \<lparr>chatbot_message = JStr ''Command processed'', delay_seconds = 0\<rparr>)
   \<and> map_of [(''delay_seconds'', JStr ''30'')] ''delay_seconds'' = Some (JStr ''30'')
   \<and> py_int (JStr ''30'') = Inr 30
   \<and> apply_updates initial_states [(''delay_seconds'', JStr ''30'')] = Inr initial_states
   \<and> parse_command initial_states [(''delay_seconds'', JStr ''30'')]
       = (initial_states,
          Some \<lparr>chatbot_message = JStr ''Command processed'', delay_seconds = 30\<rparr>)
   \<and> map_of [(''delay_seconds'', JStr ''soon'')] ''delay_seconds'' = Some (JStr ''soon'')
   \<and> py_int (JStr ''soon'') = Inl ValueError
   \<and> parse_command initial_states [(''delay_seconds'', JStr ''soon'')] = (initial_states, None)
   \<and> receive_voice_command initial_states [(''delay_seconds'', JStr ''soon'')]
       = (initial_states, Failure ''No command received'')"
proof -
  have a1: "map_of [(''device_states'', JDict [(''TV'', JStr ''on'')])] ''delay_seconds'' = None"
    by simp
  have a2: "apply_updates initial_states [(''device_states'', JDict [(''TV'', JStr ''on'')])]
       = Inr (AList.update ''TV'' (JStr ''on'') initial_states)"
    by code_simp
  have a3: "dict_get [(''device_states'', JDict [(''TV'', JStr ''on'')])] ''chatbot_message''
       (JStr ''Command processed'') = JStr ''Command processed''"
    by (simp add: dict_get_def)
  have b1: "map_of [(''delay_seconds'', JStr ''30'')] ''delay_seconds'' = Some (JStr ''30'')"
    by simp
  have b2: "py_int (JStr ''30'') = Inr 30" by code_simp
  have b3: "apply_updates initial_states [(''delay_seconds'', JStr ''30'')] = Inr initial_states"
    by code_simp
  have b4: "dict_get [(''delay_seconds'', JStr ''30'')] ''chatbot_message''
       (JStr ''Command processed'') = JStr ''Command processed''"
    by (simp add: dict_get_def)
  have c1: "map_of [(''delay_seconds'', JStr ''soon'')] ''delay_seconds'' = Some (JStr ''soon'')"
    by simp
  have c2: "py_int (JStr ''soon'') = Inl ValueError" by code_simp
  have c3: "final (apply_updates initial_states [(''delay_seconds'', JStr ''soon'')])
       = initial_states"
    by code_simp
  from delay_seconds_parsed
      [of "[(''device_states'', JDict [(''TV'', JStr ''on'')])]" initial_states
         "AList.update ''TV'' (JStr ''on'') initial_states"]
    delay_seconds_parsed
      [of "[(''delay_seconds'', JStr ''30'')]" initial_states initial_states "JStr ''30''" 30]
    delay_seconds_parsed
      [of "[(''delay_seconds'', JStr ''soon'')]" initial_states _ "JStr ''soon''" _ ValueError]
    a1 a2 a3 b1 b2 b3 b4 c1 c2 c3
  show ?thesis by auto
qed

text \<open>
  Against C5 as stated: with \<^verbatim>\<open>delay_seconds\<close> \<^verbatim>\<open>soon\<close> the merge turns the TV on and
  then returns \<^verbatim>\<open>None\<close>, no delay of 0, and the caller gets the status \<^verbatim>\<open>error\<close>.
\<close>

theorem invalid_delay_reported_counterexample:
  "parse_command initial_states
       [(''device_states'', JDict [(''TV'', JStr ''on'')]), (''delay_seconds'', JStr ''soon'')]
     = (AList.update ''TV'' (JStr ''on'') initial_states, None)
   \<and> snd (receive_voice_command initial_states
       [(''device_states'', JDict [(''TV'', JStr ''on'')]), (''delay_seconds'', JStr ''soon'')])
     = Failure ''No command received''"
  by code_simp






text \<open>
  What the intensity loop does with a value that \<^verbatim>\<open>int\<close> refuses. The device states stay
  as they are, since the assignment is not reached. When the exception is \<^verbatim>\<open>ValueError\<close>
  or \<^verbatim>\<open>TypeError\<close> (as for \<^verbatim>\<open>abc%\<close>) the handler of the loop logs it and the loop goes on:
  the whole result of \<^const>\<open>parse_command\<close> is the one for the document without such entries.
  The handler does not name the one other exception of \<^verbatim>\<open>int\<close>, \<^verbatim>\<open>OverflowError\<close> for
  an infinite float, which leaves the loop.
\<close>

lemma malformed_intensity_skipped:
  assumes "py_int (strip_percent intensity) = Inl e"
  shows "final (update_intensity ds (light, intensity)) = ds
    \<and> (e \<noteq> OverflowError \<longrightarrow> update_intensity ds (light, intensity) = Inr ds)
    \<and> (e = OverflowError \<and> light \<in> set dimmable \<longrightarrow>
         update_intensity ds (light, intensity) = Inl (OverflowError, ds))
    \<and> parse_command ds (drop_entries malformed_intensity ''light_intensity'' parsed_output)
        = parse_command ds parsed_output"
proof (intro conjI)
  from assms py_int_errors
  have e: "e = ValueError \<or> e = TypeError \<or> e = OverflowError" by blast
  from assms show "final (update_intensity ds (light, intensity)) = ds"
    by (simp add: final_catch)
  from assms e show "e \<noteq> OverflowError \<longrightarrow> update_intensity ds (light, intensity) = Inr ds"
    by (auto simp: catch_value_type_def)
  from assms show "e = OverflowError \<and> light \<in> set dimmable \<longrightarrow>
      update_intensity ds (light, intensity) = Inl (OverflowError, ds)"
    by (auto simp: catch_value_type_def)
  show "parse_command ds (drop_entries malformed_intensity ''light_intensity'' parsed_output)
        = parse_command ds parsed_output"
    by (rule parse_command_drop_light_intensity) (rule update_intensity_malformed)
qed

lemma malformed_intensity_skipped_example:
  "py_int (strip_percent (JStr ''abc%'')) = Inl ValueError
   \<and> final (update_intensity initial_states (''room 2 light'', JStr ''abc%'')) = initial_states
   \<and> update_intensity initial_states (''room 2 light'', JStr ''abc%'') = Inr initial_states
   \<and> parse_command initial_states
        (drop_entries malformed_intensity ''light_intensity''
           [(''light_intensity'', JDict [(''room 2 light'', JStr ''abc%'')])])
      = parse_command initial_states
          [(''light_intensity'', JDict [(''room 2 light'', JStr ''abc%'')])]
   \<and> parse_command initial_states
        [(''light_intensity'', JDict [(''room 2 light'', JStr ''abc%'')])]
      = (initial_states,
         Some \<lparr>chatbot_message = JStr ''Command processed'', delay_seconds = 0\<rparr>)
   \<and> py_int (strip_percent (JFloat PosInf)) = Inl OverflowError
   \<and> ''room 2 light'' \<in> set dimmable
   \<and> final (update_intensity initial_states (''room 2 light'', JFloat PosInf)) = initial_states
   \<and> update_intensity initial_states (''room 2 light'', JFloat PosInf)
       = Inl (OverflowError, initial_states)
   \<and> parse_command initial_states
        [(''light_intensity'', JDict [(''room 2 light'', JFloat PosInf)])]
      = (initial_states, None)"
proof -
  have h: "py_int (strip_percent (JStr ''abc%'')) = Inl ValueError" by code_simp
  have r: "parse_command initial_states
        [(''light_intensity'', JDict [(''room 2 light'', JStr ''abc%'')])]
      = (initial_states,
         Some \<lparr>chatbot_message = JStr ''Command processed'', delay_seconds = 0\<rparr>)"
    by code_simp
  have i: "py_int (strip_percent (JFloat PosInf)) = Inl OverflowError"
    by (simp add: strip_percent_def)
  have l: "''room 2 light'' \<in> set dimmable" by (simp add: dimmable_def)
  have n: "parse_command initial_states
        [(''light_intensity'', JDict [(''room 2 light'', JFloat PosInf)])]
      = (initial_states, None)"
    by code_simp
  from h r i l n
    malformed_intensity_skipped [OF h, of initial_states "''room 2 light''"
      "[(''light_intensity'', JDict [(''room 2 light'', JStr ''abc%'')])]"]
    malformed_intensity_skipped [OF i, of initial_states "''room 2 light''"
      "[(''light_intensity'', JDict [(''room 2 light'', JFloat PosInf)])]"]
  show ?thesis by (auto simp del: update_intensity.simps)
qed

text \<open>
  C8, where the code departs from it. The claim is that every intensity that fails the
  coercion is logged and skipped while the merge goes on; for \<^verbatim>\<open>ValueError\<close> and
  \<^verbatim>\<open>TypeError\<close> the code does so (\<open>malformed_intensity_skipped\<close>). An infinite float, which
  the JSON text \<^verbatim>\<open>1e999\<close> gives, raises \<^verbatim>\<open>OverflowError\<close>: the loop body raises it
  with the light untouched, the merge ends there, \<^verbatim>\<open>parse_command\<close> returns \<^verbatim>\<open>None\<close> and
  the endpoint answers with the status \<^verbatim>\<open>error\<close>. The intensity 50 for room 3 light and
  the direction of the servo, which the same document gives after the infinite value,
  are lost, while the document without the infinite value sets both.
\<close>

theorem infinite_intensity_aborts_merge:
  "update_intensity initial_states (''room 2 light'', JFloat PosInf)
     = Inl (OverflowError, initial_states)
   \<and> parse_command initial_states
        [(''light_intensity'',
            JDict [(''room 2 light'', JFloat PosInf), (''room 3 light'', JInt 50)]),
         (''servo_motor_direction'', JStr ''clock'')]
      = (initial_states, None)
   \<and> snd (receive_voice_command initial_states
        [(''light_intensity'',
            JDict [(''room 2 light'', JFloat PosInf), (''room 3 light'', JInt 50)]),
         (''servo_motor_direction'', JStr ''clock'')])
      = Failure ''No command received''
   \<and> parse_command initial_states
        [(''light_intensity'', JDict [(''room 3 light'', JInt 50)]),
         (''servo_motor_direction'', JStr ''clock'')]
      = (AList.update ''Servo motor''
           (JDict [(''direction'', JStr ''clock''), (''degrees'', JInt 0)])
           (AList.update ''room 3 light''
              (JDict [(''state'', JStr ''on''), (''intensity'', JInt 50)]) initial_states),
         Some \<lparr>chatbot_message = JStr ''Command processed'', delay_seconds = 0\<rparr>)
   \<and> parse_command initial_states
        [(''light_intensity'',
            JDict [(''room 2 light'', JStr ''abc%''), (''room 3 light'', JInt 50)]),
         (''servo_motor_direction'', JStr ''clock'')]
      = (AList.update ''Servo motor''
           (JDict [(''direction'', JStr ''clock''), (''degrees'', JInt 0)])
           (AList.update ''room 3 light''
              (JDict [(''state'', JStr ''on''), (''intensity'', JInt 50)]) initial_states),
         Some \<lparr>chatbot_message = JStr ''Command processed'', delay_seconds = 0\<rparr>)"
  by code_simp

text \<open>
  C9, as the code has it. The merge neither adds a key to the device states nor removes
  one, whatever the document is and whether or not the merge ends with an exception; the
  keys even keep their order. So after any sequence of merges that starts from the dict of
  the constructor, the keys are the nine keys of that dict. The device states are not
  fully populated at all times, though: \<^verbatim>\<open>receive_direct_command\<close> replaces them with the
  posted object when that is not empty, and the keys of that object are then the keys
  that the merges keep.
\<close>

theorem merge_keeps_keys:
  "map fst (fst (parse_command ds parsed_output)) = map fst ds
   \<and> map fst (run_commands initial_states docs) =
       [''room 1 light'', ''room 2 light'', ''room 3 light'', ''room 4 light'',
        ''kitchen light'', ''TV'', ''Refrigerator'', ''DC motor'', ''Servo motor'']
   \<and> map fst (run_commands ds docs) = map fst ds
   \<and> (new_states \<noteq> [] \<longrightarrow> fst (receive_direct_command ds new_states) = new_states)
   \<and> fst (receive_direct_command ds []) = ds"
proof (intro conjI)
  show "map fst (fst (parse_command ds parsed_output)) = map fst ds"
    by (rule keys_parse_command)
  have "map fst (run_commands initial_states docs) = map fst initial_states"
    by (rule keys_run_commands)
  then show "map fst (run_commands initial_states docs) =
       [''room 1 light'', ''room 2 light'', ''room 3 light'', ''room 4 light'',
        ''kitchen light'', ''TV'', ''Refrigerator'', ''DC motor'', ''Servo motor'']"
    by (simp add: initial_states_def)
  show "map fst (run_commands ds docs) = map fst ds"
    by (rule keys_run_commands)
  show "new_states \<noteq> [] \<longrightarrow> fst (receive_direct_command ds new_states) = new_states"
    by (simp add: receive_direct_command_replaces)
  show "fst (receive_direct_command ds []) = ds"
    by (simp add: receive_direct_command_def)
qed

theorem merge_keeps_keys_witness:
  "map fst (fst (parse_command initial_states
       [(''device_states'', JDict [(''garage door'', JStr ''on''), (''TV'', JStr ''on'')]),
        (''light_intensity'', JDict [(''hall light'', JInt 40)])]))
     = map fst initial_states
   \<and> map fst (run_commands initial_states
       [[(''device_states'', JDict [(''garage door'', JStr ''on'')])],
        [(''servo_motor_direction'', JStr ''clock'')]])
     = [''room 1 light'', ''room 2 light'', ''room 3 light'', ''room 4 light'',
        ''kitchen light'', ''TV'', ''Refrigerator'', ''DC motor'', ''Servo motor'']
   \<and> [(''TV'', JStr ''on'')] \<noteq> ([] :: pydict)
   \<and> fst (receive_direct_command initial_states [(''TV'', JStr ''on'')]) = [(''TV'', JStr ''on'')]
   \<and> fst (receive_direct_command initial_states []) = initial_states"
proof -
  have h: "[(''TV'', JStr ''on'')] \<noteq> ([] :: pydict)" by simp
  from h merge_keeps_keys [of initial_states
      "[(''device_states'', JDict [(''garage door'', JStr ''on''), (''TV'', JStr ''on'')]),
        (''light_intensity'', JDict [(''hall light'', JInt 40)])]"
      "[[(''device_states'', JDict [(''garage door'', JStr ''on'')])],
        [(''servo_motor_direction'', JStr ''clock'')]]"
      "[(''TV'', JStr ''on'')]"]
  show ?thesis by blast
qed

text \<open>
  Against C9 as stated: the request \<^verbatim>\<open>{"TV": "on"}\<close> to \<^verbatim>\<open>/command\<close> leaves the device
  states with the one key \<^verbatim>\<open>TV\<close>, and a merge after it keeps just that key.
\<close>

theorem store_replaced_counterexample:
  "map fst (fst (receive_direct_command initial_states [(''TV'', JStr ''on'')])) = [''TV'']
   \<and> map fst (fst (receive_direct_command initial_states [(''TV'', JStr ''on'')]))
       \<noteq> map fst initial_states
   \<and> map fst (run_commands (fst (receive_direct_command initial_states [(''TV'', JStr ''on'')]))
        [[(''device_states'', JDict [(''kitchen light'', JStr ''on''), (''TV'', JStr ''off'')])]])
       = [''TV'']"
  by code_simp

text \<open>
  C10. A value for \<^verbatim>\<open>Servo motor\<close> in the per-device map that is no dict is ignored: the
  loop body returns the device states unchanged, so the servo keeps its direction and its
  degrees, and the whole result of \<^const>\<open>parse_command\<close> is the one for the document without
  such entries.
\<close>

theorem servo_non_dict_ignored:
  assumes "\<not> is_dict state"
  shows "update_device ds (''Servo motor'', state) = Inr ds
    \<and> parse_command ds
         (drop_entries (\<lambda>kv. fst kv = ''Servo motor'' \<and> \<not> is_dict (snd kv)) ''device_states''
            parsed_output)
        = parse_command ds parsed_output"
proof
  have skip: "update_device ds' (''Servo motor'', v) = Inr ds'" if "\<not> is_dict v" for ds' v
    using that by (cases v) (simp_all add: dimmable_def split: option.splits)
  from assms show "update_device ds (''Servo motor'', state) = Inr ds" by (rule skip)
  show "parse_command ds
         (drop_entries (\<lambda>kv. fst kv = ''Servo motor'' \<and> \<not> is_dict (snd kv)) ''device_states''
            parsed_output)
        = parse_command ds parsed_output"
  proof (rule parse_command_drop_device_states)
    fix ds' :: pydict and kv :: "string \<times> json"
    assume "fst kv = ''Servo motor'' \<and> \<not> is_dict (snd kv)"
    then show "update_device ds' kv = Inr ds'"
      using skip [of "snd kv" ds'] by (cases kv) simp
  qed
qed

theorem servo_non_dict_ignored_witness:
  "\<not> is_dict (JStr ''on'')
   \<and> update_device initial_states (''Servo motor'', JStr ''on'') = Inr initial_states
   \<and> parse_command initial_states
        (drop_entries (\<lambda>kv. fst kv = ''Servo motor'' \<and> \<not> is_dict (snd kv)) ''device_states''
           [(''device_states'', JDict [(''Servo motor'', JStr ''on'')])])
      = parse_command initial_states [(''device_states'', JDict [(''Servo motor'', JStr ''on'')])]"
proof -
  have h: "\<not> is_dict (JStr ''on'')" by simp
  from h servo_non_dict_ignored [OF h, of initial_states
      "[(''device_states'', JDict [(''Servo motor'', JStr ''on'')])]"]
  show ?thesis by blast
qed

end
